theory Spec2Isabelle
  imports Main
begin

text \<open>
  The hub of relayr, a message exchange between browser clients and relays on the
  server: the \<^verbatim>\<open>Exchange\<close> with its relays and groups (in the revision that has the
  \<^verbatim>\<open>verbosity\<close> field) and the socket transport of \<^verbatim>\<open>websocket-transport.go\<close>. Every
  function is a function on the state of the hub; a panic of the Go program is a value.
  The goroutines are run one after the other, in the order that the text at each
  definition gives.
\<close>

section \<open>Values and messages\<close>

text \<open>
  A value of Go's \<^verbatim>\<open>interface{}\<close>, as an argument of a call. The program passes
  arguments on and never looks into one, except that it makes one of a slice; so a
  value is a string, a \<^verbatim>\<open>[]interface{}\<close> (\<open>VSlice None\<close> is the nil slice), or any
  other value (nil, a bool, a \<^verbatim>\<open>float64\<close>, a map, a struct, a channel), which \<open>VOther\<close>
  tells apart by a number.
\<close>

datatype "value" = VString string | VSlice "value list option" | VOther nat

text \<open>A \<^verbatim>\<open>[]interface{}\<close>: \<open>None\<close> is the nil slice, \<open>Some []\<close> the empty one.\<close>

type_synonym slice = "value list option"

text \<open>The elements of a slice, as \<^verbatim>\<open>range\<close> and a variadic call see them.\<close>

definition elems :: "slice \<Rightarrow> value list" where
  "elems s = (case s of None \<Rightarrow> [] | Some xs \<Rightarrow> xs)"

text \<open>
  \<^verbatim>\<open>webSocketClientMessage\<close> (and \<^verbatim>\<open>longPollServerCall\<close>, which has the same fields and
  the same tags \<^verbatim>\<open>S R M A C\<close>).
\<close>

record webSocketClientMessage =
  Server :: bool
  Relay :: string
  Method :: string
  Arguments :: slice
  ConnectionID :: string

type_synonym longPollServerCall = webSocketClientMessage

text \<open>
  The anonymous struct with the fields \<^verbatim>\<open>R\<close>, \<^verbatim>\<open>M\<close> and \<^verbatim>\<open>A\<close> that
  \<^verbatim>\<open>CallClientFunction\<close> hands to the encoder.

  \<^verbatim>\<open>encoding/json\<close> is not part of the program and is not modelled. A buffer that the
  program has encoded is given by the struct that was encoded into it: it holds what
  \<^verbatim>\<open>Encode\<close> wrote for that struct, which is nothing when \<^verbatim>\<open>Encode\<close> returned an error.
  A message that the program decodes is given by what \<^verbatim>\<open>json.Unmarshal\<close> made of it:
  the error it returned and the struct as it left it.
\<close>

record outboundCall =
  outR :: string
  outM :: string
  outA :: slice

section \<open>Relays and reflection\<close>

text \<open>
  A method as \<^verbatim>\<open>reflect\<close> sees it: its name and the argument lists that
  \<^verbatim>\<open>Value.Call\<close> accepts after the relay handle (right count, each value assignable to
  its parameter); \<^verbatim>\<open>Call\<close> panics on any other list.
\<close>

record rmethod =
  methodName :: string
  accepts :: "value list \<Rightarrow> bool"

text \<open>
  The \<^verbatim>\<open>reflect.Type\<close> of a registered struct \<^verbatim>\<open>T\<close>: its name, the exported methods
  in the method set of \<^verbatim>\<open>T\<close> (what \<^verbatim>\<open>NumMethod\<close> and \<^verbatim>\<open>Method(i)\<close> enumerate), and
  the exported methods declared with a pointer receiver, which are in the method set of
  \<^verbatim>\<open>*T\<close> only.
\<close>

record rtype =
  typeName :: string
  valueMethods :: "rmethod list"
  pointerMethods :: "rmethod list"

text \<open>
  \<^verbatim>\<open>reflect.New(t).MethodByName(fn)\<close>: a lookup in the method set of \<^verbatim>\<open>*T\<close>, which holds
  the methods of \<^verbatim>\<open>T\<close> and the pointer-receiver ones. \<open>None\<close> is the zero \<^verbatim>\<open>Value\<close>.
\<close>

definition MethodByName :: "rtype \<Rightarrow> string \<Rightarrow> rmethod option" where
  "MethodByName ty fn =
     find (\<lambda>m. methodName m = fn) (valueMethods ty @ pointerMethods ty)"

text \<open>
  The struct \<^verbatim>\<open>Relay\<close>, which is both a registered definition and a handle. The field
  \<^verbatim>\<open>t\<close> is \<open>reflectType\<close>; \<^verbatim>\<open>ConnectionID\<close> is \<open>RelayConnectionID\<close>.
\<close>

record Relay =
  Name :: string
  RelayConnectionID :: string
  reflectType :: rtype
  methods :: "string list"

text \<open>The struct \<^verbatim>\<open>client\<close>; its transport is one of the two of the Exchange, or nil.\<close>

datatype Transport = WebSocketTransport | LongPollTransport

record client =
  ClientConnectionID :: string
  transport :: "Transport option"

text \<open>
  The struct \<^verbatim>\<open>connection\<close> of the socket transport: its id and its channel \<^verbatim>\<open>out\<close>,
  the buffers sent on it and whether it has been closed.
\<close>

record connection =
  connID :: string
  out :: "outboundCall list"
  outClosed :: bool

text \<open>A run-time panic of the Go program.\<close>

datatype panic =
  NilDereference
  | IndexOutOfRange
  | CallMismatch
  | SendOnClosedChannel
  | CloseOfClosedChannel

text \<open>The error that \<^verbatim>\<open>callRelayMethod\<close> returns: method and relay name of the message.\<close>

datatype error = UnknownMethod string string

text \<open>
  A reflected argument list, as \<^verbatim>\<open>buildArgValues\<close> builds it, and a call of a relay
  method through \<^verbatim>\<open>method.Call\<close>.
\<close>

datatype rvalue = RelayValue Relay | ArgValue "value"

record invocation =
  invokedMethod :: string
  invokedWith :: "rvalue list"

text \<open>One call of \<^verbatim>\<open>CallClientFunction\<close> on a client's transport.\<close>

record transportCall =
  callOn :: Transport
  callRelay :: "Relay option"
  callFn :: string
  callArgs :: slice

text \<open>
  The state of the hub. \<open>relays\<close>, \<open>groups\<close> and \<open>verbosity\<close> are the fields of
  \<^verbatim>\<open>Exchange\<close>; a group is a slice of client pointers, \<open>None\<close> the nil pointer.
  \<open>connections\<close> is the table of the socket transport
  (\<^verbatim>\<open>e.transports["websocket"].connections\<close>), from an id to a connection pointer, and
  \<open>conns\<close> is the store that the connection pointers point into. \<open>pending\<close> holds
  the envelopes that wait in the long-poll transport, by connection id. \<open>invoked\<close> lists the
  relay methods called so far, \<open>calls\<close> the calls of \<^verbatim>\<open>CallClientFunction\<close> that the
  Exchange made on clients' transports.
\<close>

record Exchange =
  relays :: "Relay list"
  groups :: "string \<rightharpoonup> client option list"
  verbosity :: int
  connections :: "string \<rightharpoonup> nat"
  conns :: "nat \<Rightarrow> connection"
  pending :: "string \<rightharpoonup> webSocketClientMessage list"
  invoked :: "invocation list"
  calls :: "transportCall list"

subsection \<open>Registration and dispatch\<close>

text \<open>
  \<^verbatim>\<open>NewExchange\<close>: no relay, no group and no connection yet. The connection store
  holds no connection of the program yet either; its content is of no account.
\<close>

definition NewExchange :: "int \<Rightarrow> Exchange" where
  "NewExchange v =
     \<lparr>relays = [], groups = Map.empty, verbosity = v, connections = Map.empty,
      conns = (\<lambda>_. \<lparr>connID = [], out = [], outClosed = False\<rparr>),
      pending = Map.empty, invoked = [], calls = []\<rparr>"

definition getMethodsForType :: "rtype \<Rightarrow> string list" where
  "getMethodsForType ty = map methodName (valueMethods ty)"

definition RegisterRelay :: "rtype \<Rightarrow> Exchange \<Rightarrow> Exchange" where
  "RegisterRelay ty e =
     e\<lparr>relays := relays e @
        [\<lparr>Name = typeName ty, RelayConnectionID = [], reflectType = ty,
          methods = getMethodsForType ty\<rparr>]\<rparr>"

text \<open>
  \<^verbatim>\<open>getRelayByName\<close>: a fresh handle for the first definition of that name, nil when
  there is none. The handle does not copy \<^verbatim>\<open>methods\<close>.
\<close>

definition getRelayByName :: "string \<Rightarrow> string \<Rightarrow> Exchange \<Rightarrow> Relay option" where
  "getRelayByName name cID e =
     (case find (\<lambda>r. Name r = name) (relays e) of
        None \<Rightarrow> None
      | Some r \<Rightarrow>
          Some \<lparr>Name = name, RelayConnectionID = cID, reflectType = reflectType r,
                methods = []\<rparr>)"

definition buildArgValues :: "Relay \<Rightarrow> slice \<Rightarrow> rvalue list" where
  "buildArgValues relay args = RelayValue relay # map ArgValue (elems args)"

text \<open>
  \<^verbatim>\<open>callRelayMethod\<close>. \<^verbatim>\<open>relay.t\<close> is read first, so a nil handle panics. What the
  called method does is the relay's own code; the model records the call.
\<close>

definition callRelayMethod ::
  "Relay option \<Rightarrow> string \<Rightarrow> slice \<Rightarrow> Exchange \<Rightarrow> (panic + error option) \<times> Exchange"
where
  "callRelayMethod relay fn args e =
     (case relay of
        None \<Rightarrow> (Inl NilDereference, e)
      | Some r \<Rightarrow>
          (case MethodByName (reflectType r) fn of
             None \<Rightarrow> (Inr (Some (UnknownMethod fn (Name r))), e)
           | Some m \<Rightarrow>
               if accepts m (elems args)
               then (Inr None,
                     e\<lparr>invoked := invoked e @
                        [\<lparr>invokedMethod = methodName m,
                          invokedWith = buildArgValues r args\<rparr>]\<rparr>)
               else (Inl CallMismatch, e)))"

text \<open>
  How a request handler ends: it returns, it panics in the handler's own goroutine, or
  a goroutine it started with \<^verbatim>\<open>go\<close> panics. Nothing in the program recovers a panic,
  and a panic of a started goroutine ends the process.
\<close>

datatype outcome = Completed | HandlerPanic panic | GoroutinePanic panic

text \<open>
  \<^verbatim>\<open>callServer\<close>, given the struct \<^verbatim>\<open>msg\<close> as \<^verbatim>\<open>decoder.Decode\<close> left it (the error
  of \<^verbatim>\<open>Decode\<close> is ignored) and the values of the query parameter \<^verbatim>\<open>connectionId\<close>. The
  method runs in a new goroutine.
\<close>

definition callServer ::
  "longPollServerCall \<Rightarrow> string list \<Rightarrow> Exchange \<Rightarrow> outcome \<times> Exchange"
where
  "callServer msg query e =
     (case query of
        [] \<Rightarrow> (HandlerPanic IndexOutOfRange, e)
      | cid # _ \<Rightarrow>
          (case callRelayMethod (getRelayByName (Relay msg) cid e) (Method msg)
                  (Arguments msg) e of
             (Inl p, e') \<Rightarrow> (GoroutinePanic p, e')
           | (Inr _, e') \<Rightarrow> (Completed, e')))"

section \<open>The group registry\<close>

text \<open>\<^verbatim>\<open>e.groups[g]\<close>: the slice of the group, the nil slice for a missing key.\<close>

definition groupMembers :: "string \<Rightarrow> Exchange \<Rightarrow> client option list" where
  "groupMembers g e = (case groups e g of None \<Rightarrow> [] | Some cs \<Rightarrow> cs)"

text \<open>
  \<^verbatim>\<open>addClient\<close>, given the id that \<^verbatim>\<open>generateConnectionID\<close> returned and
  \<^verbatim>\<open>e.transports[t]\<close>.
\<close>

definition transportNamed :: "string \<Rightarrow> Transport option" where
  "transportNamed t =
     (if t = ''websocket'' then Some WebSocketTransport
      else if t = ''longpoll'' then Some LongPollTransport
      else None)"

definition addClient :: "string \<Rightarrow> string \<Rightarrow> Exchange \<Rightarrow> Exchange" where
  "addClient t cID e =
     e\<lparr>groups := (groups e)(''Global'' \<mapsto>
        groupMembers ''Global'' e @
        [Some \<lparr>ClientConnectionID = cID, transport = transportNamed t\<rparr>])\<rparr>"

text \<open>
  The loop of \<^verbatim>\<open>getClientByConnectionID\<close> over "Global": it reads \<^verbatim>\<open>c.ConnectionID\<close>
  of every entry up to the first match, and panics on a nil entry.
\<close>

fun findClient :: "string \<Rightarrow> client option list \<Rightarrow> panic + client option" where
  "findClient cID [] = Inr None"
| "findClient cID (None # cs) = Inl NilDereference"
| "findClient cID (Some c # cs) =
     (if ClientConnectionID c = cID then Inr (Some c) else findClient cID cs)"

definition getClientByConnectionID :: "string \<Rightarrow> Exchange \<Rightarrow> panic + client option" where
  "getClientByConnectionID cID e = findClient cID (groupMembers ''Global'' e)"

text \<open>
  The loop of \<^verbatim>\<open>getClientIndexInGroup\<close> from index \<open>i\<close> on: the index of the first entry
  that is not nil and has the id, or \<open>-1\<close>.
\<close>

fun indexFrom :: "int \<Rightarrow> string \<Rightarrow> client option list \<Rightarrow> int" where
  "indexFrom i cid [] = - 1"
| "indexFrom i cid (c # cs) =
     (if c \<noteq> None \<and> ClientConnectionID (the c) = cid then i else indexFrom (i + 1) cid cs)"

definition getClientIndexInGroup :: "string \<Rightarrow> string \<Rightarrow> Exchange \<Rightarrow> int" where
  "getClientIndexInGroup g cid e = indexFrom 0 cid (groupMembers g e)"

text \<open>
  The logging loops of \<^verbatim>\<open>addToGroup\<close>, which print \<^verbatim>\<open>c.ConnectionID\<close> of every entry:
  a nil entry panics.
\<close>

definition logMembers :: "client option list \<Rightarrow> panic option" where
  "logMembers cs = (if None \<in> set cs then Some NilDereference else None)"

text \<open>
  \<^verbatim>\<open>addToGroup\<close>. The client is looked up before the slice is assigned; the logging
  loops run only when \<^verbatim>\<open>verbosity > 0\<close>.
\<close>

definition addToGroup :: "string \<Rightarrow> string \<Rightarrow> Exchange \<Rightarrow> panic option \<times> Exchange" where
  "addToGroup grp connectionID e =
     (if getClientIndexInGroup grp connectionID e = - 1
      then (case getClientByConnectionID connectionID e of
              Inl p \<Rightarrow> (Some p, e)
            | Inr c \<Rightarrow>
                (let e' = e\<lparr>groups := (groups e)(grp \<mapsto> groupMembers grp e @ [c])\<rparr>
                 in (if verbosity e > 0 then logMembers (groupMembers grp e') else None,
                     e')))
      else (if verbosity e > 0 then logMembers (groupMembers grp e) else None, e))"

text \<open>
  \<^verbatim>\<open>removeFromGroupByID\<close>: the entry at the index is cut out of the slice, and the key
  is deleted when the slice is empty then.
\<close>

definition removeFromGroupByID :: "string \<Rightarrow> string \<Rightarrow> Exchange \<Rightarrow> Exchange" where
  "removeFromGroupByID g cid e =
     (let i = getClientIndexInGroup g cid e in
      if i > - 1
      then (let grp = groupMembers g e;
                rest = take (nat i) grp @ drop (nat (i + 1)) grp
            in if length rest = 0
               then e\<lparr>groups := (groups e)(g := None)\<rparr>
               else e\<lparr>groups := (groups e)(g \<mapsto> rest)\<rparr>)
      else e)"

text \<open>
  \<^verbatim>\<open>removeFromAllGroups\<close> ranges over the keys of the map in an order that the run time
  chooses; \<open>removeFromAllGroupsIn ks\<close> is the loop that visits the keys in the order
  \<open>ks\<close>. Every key of the map is visited once, since the loop deletes no key but the
  one it is visiting.
\<close>

definition removeFromAllGroupsIn :: "string list \<Rightarrow> string \<Rightarrow> Exchange \<Rightarrow> Exchange" where
  "removeFromAllGroupsIn ks cid e = fold (\<lambda>g. removeFromGroupByID g cid) ks e"

text \<open>
  The result of the loop written without the order: every group is what
  \<^verbatim>\<open>removeFromGroupByID\<close> makes of it (\<open>removeFromAllGroupsIn_order\<close> below shows that
  every visiting order gives this).
\<close>

definition removeFromAllGroups :: "string \<Rightarrow> Exchange \<Rightarrow> Exchange" where
  "removeFromAllGroups cid e =
     e\<lparr>groups := (\<lambda>g. groups (removeFromGroupByID g cid e) g)\<rparr>"

section \<open>Transports\<close>

text \<open>A send on a channel: a closed channel panics.\<close>

definition sendOut :: "nat \<Rightarrow> outboundCall \<Rightarrow> Exchange \<Rightarrow> panic option \<times> Exchange" where
  "sendOut ref msg e =
     (if outClosed (conns e ref) then (Some SendOnClosedChannel, e)
      else (None, e\<lparr>conns := (conns e)(ref := (conns e ref)\<lparr>out := out (conns e ref) @ [msg]\<rparr>)\<rparr>))"

text \<open>
  \<^verbatim>\<open>CallClientFunction\<close> of the socket transport. The struct literal reads
  \<^verbatim>\<open>relay.Name\<close> first, so a nil handle panics. The buffer is sent on the queue of the
  connection that the table has for the handle's connection id, if any. (A send on a
  full queue blocks until the writer has drained it; the model shows the queue once
  the send is done.)
\<close>

definition CallClientFunction ::
  "Relay option \<Rightarrow> string \<Rightarrow> slice \<Rightarrow> Exchange \<Rightarrow> panic option \<times> Exchange"
where
  "CallClientFunction relay fn args e =
     (case relay of
        None \<Rightarrow> (Some NilDereference, e)
      | Some r \<Rightarrow>
          (let buff = \<lparr>outR = Name r, outM = fn, outA = args\<rparr> in
           case connections e (RelayConnectionID r) of
             None \<Rightarrow> (None, e)
           | Some ref \<Rightarrow> sendOut ref buff e))"

text \<open>
  Modelled from the spec: the long-poll transport (\<^verbatim>\<open>newLongPollTransport\<close> and the
  \<^verbatim>\<open>CallClientFunction\<close> of \<^verbatim>\<open>longPollTransport\<close>) is not among the sources. The spec:
  the call "enqueues an envelope for the connection id; if a poll is currently parked
  waiting for that id, it is resolved immediately with the envelope; otherwise the
  envelope waits until the next poll arrives", and the envelope has the members
  \<^verbatim>\<open>S\<close>, \<^verbatim>\<open>R\<close>, \<^verbatim>\<open>M\<close>, \<^verbatim>\<open>A\<close> and \<^verbatim>\<open>C\<close>. The model keeps the envelopes by connection
  id, in the order of the calls, each given by the struct of its members. The spec does not say what a nil handle does; the
  model enqueues nothing for it.
\<close>

definition longPollCallClientFunction ::
  "Relay option \<Rightarrow> string \<Rightarrow> slice \<Rightarrow> Exchange \<Rightarrow> panic option \<times> Exchange"
where
  "longPollCallClientFunction relay fn args e =
     (case relay of
        None \<Rightarrow> (None, e)
      | Some r \<Rightarrow>
          (None,
           e\<lparr>pending := (pending e)(RelayConnectionID r \<mapsto>
              (case pending e (RelayConnectionID r) of None \<Rightarrow> [] | Some q \<Rightarrow> q) @
              [\<lparr>Server = False, Relay = Name r, Method = fn, Arguments = args,
                ConnectionID = RelayConnectionID r\<rparr>])\<rparr>))"

text \<open>
  \<^verbatim>\<open>c.transport.CallClientFunction(r, fn, args...)\<close> on a client: a call on the nil
  interface panics; otherwise the call is recorded in \<open>calls\<close> and the function of the
  client's transport runs.
\<close>

definition callTransport ::
  "Transport option \<Rightarrow> Relay option \<Rightarrow> string \<Rightarrow> slice \<Rightarrow> Exchange \<Rightarrow> panic option \<times> Exchange"
where
  "callTransport tr relay fn args e =
     (case tr of
        None \<Rightarrow> (Some NilDereference, e)
      | Some k \<Rightarrow>
          (let e' = e\<lparr>calls := calls e @
                      [\<lparr>callOn = k, callRelay = relay, callFn = fn, callArgs = args\<rparr>]\<rparr>
           in case k of
                WebSocketTransport \<Rightarrow> CallClientFunction relay fn args e'
              | LongPollTransport \<Rightarrow> longPollCallClientFunction relay fn args e'))"

subsection \<open>Calls to clients\<close>

text \<open>
  The loop of \<^verbatim>\<open>callGroupMethod\<close> over the slice read at its start: a nil entry is
  skipped, every other member is called through a fresh handle with the member's id.
\<close>

fun callEach :: "Relay \<Rightarrow> string \<Rightarrow> slice \<Rightarrow> client option list \<Rightarrow> Exchange \<Rightarrow> panic option \<times> Exchange" where
  "callEach relay fn args [] e = (None, e)"
| "callEach relay fn args (None # cs) e = callEach relay fn args cs e"
| "callEach relay fn args (Some c # cs) e =
     (case callTransport (transport c) (getRelayByName (Name relay) (ClientConnectionID c) e)
             fn args e of
        (Some p, e') \<Rightarrow> (Some p, e')
      | (None, e') \<Rightarrow> callEach relay fn args cs e')"

definition callGroupMethod ::
  "Relay \<Rightarrow> string \<Rightarrow> string \<Rightarrow> slice \<Rightarrow> Exchange \<Rightarrow> panic option \<times> Exchange"
where
  "callGroupMethod relay grp fn args e =
     (case groups e grp of
        Some cs \<Rightarrow> callEach relay fn args cs e
      | None \<Rightarrow> (None, e))"

text \<open>
  The loop of \<^verbatim>\<open>callGroupMethodExcept\<close>: it reads \<^verbatim>\<open>c.ConnectionID\<close> of every entry, so
  a nil entry panics; the members with the handle's own id are passed over.
\<close>

fun callEachExcept :: "Relay \<Rightarrow> string \<Rightarrow> slice \<Rightarrow> client option list \<Rightarrow> Exchange \<Rightarrow> panic option \<times> Exchange" where
  "callEachExcept relay fn args [] e = (None, e)"
| "callEachExcept relay fn args (None # cs) e = (Some NilDereference, e)"
| "callEachExcept relay fn args (Some c # cs) e =
     (if ClientConnectionID c = RelayConnectionID relay
      then callEachExcept relay fn args cs e
      else (case callTransport (transport c)
                   (getRelayByName (Name relay) (ClientConnectionID c) e) fn args e of
              (Some p, e') \<Rightarrow> (Some p, e')
            | (None, e') \<Rightarrow> callEachExcept relay fn args cs e'))"

definition callGroupMethodExcept ::
  "Relay \<Rightarrow> string \<Rightarrow> string \<Rightarrow> slice \<Rightarrow> Exchange \<Rightarrow> panic option \<times> Exchange"
where
  "callGroupMethodExcept relay grp fn args e =
     callEachExcept relay fn args (groupMembers grp e) e"

definition callClientMethod ::
  "Relay \<Rightarrow> string \<Rightarrow> slice \<Rightarrow> Exchange \<Rightarrow> panic option \<times> Exchange"
where
  "callClientMethod r fn args e =
     (if RelayConnectionID r = []
      then callGroupMethod r ''Global'' fn args e
      else (case getClientByConnectionID (RelayConnectionID r) e of
              Inl p \<Rightarrow> (Some p, e)
            | Inr None \<Rightarrow> (None, e)
            | Inr (Some c) \<Rightarrow> callTransport (transport c) (Some r) fn args e))"

subsection \<open>The socket transport's event loop and read loop\<close>

text \<open>A close of a channel: a closed channel panics.\<close>

definition closeOut :: "nat \<Rightarrow> Exchange \<Rightarrow> panic option \<times> Exchange" where
  "closeOut ref e =
     (if outClosed (conns e ref) then (Some CloseOfClosedChannel, e)
      else (None, e\<lparr>conns := (conns e)(ref := (conns e ref)\<lparr>outClosed := True\<rparr>)\<rparr>))"

text \<open>What arrives on the channels \<^verbatim>\<open>connected\<close> and \<^verbatim>\<open>disconnected\<close>: a connection pointer.\<close>

datatype event = Connected nat | Disconnected nat

text \<open>One round of the \<^verbatim>\<open>select\<close> in \<^verbatim>\<open>listen\<close>.\<close>

definition listenEvent :: "event \<Rightarrow> Exchange \<Rightarrow> panic option \<times> Exchange" where
  "listenEvent ev e =
     (case ev of
        Connected c \<Rightarrow> (None, e\<lparr>connections := (connections e)(connID (conns e c) \<mapsto> c)\<rparr>)
      | Disconnected c \<Rightarrow>
          (let i = connID (conns e c) in
           if connections e i \<noteq> None
           then (let e1 = removeFromAllGroups i e;
                     e2 = e1\<lparr>connections := (connections e1)(i := None)\<rparr>
                 in closeOut c e2)
           else (None, e)))"

text \<open>\<^verbatim>\<open>listen\<close> on the events in the order it receives them; a panic ends the loop.\<close>

fun listen :: "event list \<Rightarrow> Exchange \<Rightarrow> panic option \<times> Exchange" where
  "listen [] e = (None, e)"
| "listen (ev # evs) e =
     (case listenEvent ev e of
        (Some p, e') \<Rightarrow> (Some p, e')
      | (None, e') \<Rightarrow> listen evs e')"

text \<open>
  What \<^verbatim>\<open>c.ws.ReadMessage()\<close> returns: an error, or a message, given by what
  \<^verbatim>\<open>json.Unmarshal(message, &m)\<close> makes of it: whether it returns an error, and \<^verbatim>\<open>m\<close> as
  it leaves it.
\<close>

datatype input = ReadError | Message bool webSocketClientMessage

text \<open>
  Where the read loop stands when the inputs are used up: still in the loop (blocked in
  \<^verbatim>\<open>ReadMessage\<close>, the socket open and no disconnect sent), left through \<^verbatim>\<open>break\<close>,
  or left through a panic. Leaving the loop either way runs the deferred send on
  \<^verbatim>\<open>disconnected\<close>.
\<close>

datatype readEnd = Reading | ReadFailed | ReadPanic panic

text \<open>
  \<^verbatim>\<open>read\<close>. A message that does not decode is passed over with \<^verbatim>\<open>continue\<close>; a server
  call goes to \<^verbatim>\<open>callRelayMethod\<close>, whose error is printed; any other message goes to
  \<^verbatim>\<open>CallClientFunction\<close> with \<^verbatim>\<open>m.Arguments\<close> as its one variadic argument.
\<close>

fun read :: "input list \<Rightarrow> Exchange \<Rightarrow> readEnd \<times> Exchange" where
  "read [] e = (Reading, e)"
| "read (ReadError # rest) e = (ReadFailed, e)"
| "read (Message err m # rest) e =
     (if err then read rest e
      else (let relay = getRelayByName (Relay m) (ConnectionID m) e in
            if Server m
            then (case callRelayMethod relay (Method m) (Arguments m) e of
                    (Inl p, e') \<Rightarrow> (ReadPanic p, e')
                  | (Inr _, e') \<Rightarrow> read rest e')
            else (case CallClientFunction relay (Method m) (Some [VSlice (Arguments m)]) e of
                    (Some p, e') \<Rightarrow> (ReadPanic p, e')
                  | (None, e') \<Rightarrow> read rest e')))"

text \<open>
  \<^verbatim>\<open>upgradeWebSocket\<close> after a successful upgrade, for the new connection at the pointer
  \<open>c\<close> with the id \<open>cid\<close> of the request: the connection is announced, the read loop
  runs, and when it is left both deferred functions (the one of \<^verbatim>\<open>read\<close>, then the one
  of \<^verbatim>\<open>upgradeWebSocket\<close>) send the connection on \<^verbatim>\<open>disconnected\<close>. The events are
  handled by \<^verbatim>\<open>listen\<close> in the order they are sent, with no event of another connection
  between them.
\<close>

definition upgradeWebSocket ::
  "nat \<Rightarrow> string \<Rightarrow> input list \<Rightarrow> Exchange \<Rightarrow> readEnd \<times> panic option \<times> Exchange"
where
  "upgradeWebSocket c cid inputs e =
     (let e0 = e\<lparr>conns := (conns e)(c := \<lparr>connID = cid, out = [], outClosed = False\<rparr>)\<rparr> in
      case listen [Connected c] e0 of
        (Some p, e1) \<Rightarrow> (Reading, Some p, e1)
      | (None, e1) \<Rightarrow>
          (case read inputs e1 of
             (Reading, e2) \<Rightarrow> (Reading, None, e2)
           | (r, e2) \<Rightarrow>
               (case listen [Disconnected c, Disconnected c] e2 of
                  (p, e3) \<Rightarrow> (r, p, e3))))"

section \<open>Notions for the properties\<close>

subsection \<open>Membership\<close>

text \<open>The connection ids of the clients in a group's slice (a nil entry has none).\<close>

fun memberIDs :: "client option list \<Rightarrow> string list" where
  "memberIDs [] = []"
| "memberIDs (None # cs) = memberIDs cs"
| "memberIDs (Some c # cs) = ClientConnectionID c # memberIDs cs"

text \<open>A client is in the slice at most once: no connection id occurs twice.\<close>

definition oncePerGroup :: "client option list \<Rightarrow> bool" where
  "oncePerGroup cs = distinct (memberIDs cs)"

text \<open>
  A sequence of \<^verbatim>\<open>addToGroup\<close> calls, each on the state that the call before it left
  (a call that panics leaves a state too).
\<close>

definition addToGroups :: "(string \<times> string) list \<Rightarrow> Exchange \<Rightarrow> Exchange" where
  "addToGroups adds e = fold (\<lambda>(g, cid) e'. snd (addToGroup g cid e')) adds e"

text \<open>The slice without its first entry that has the id.\<close>

fun cutOut :: "string \<Rightarrow> client option list \<Rightarrow> client option list" where
  "cutOut cid [] = []"
| "cutOut cid (c # cs) =
     (if c \<noteq> None \<and> ClientConnectionID (the c) = cid then cs else c # cutOut cid cs)"

text \<open>
  A group of the map without its first entry that has the id, and no group when
  nothing is left of it.
\<close>

definition strip :: "string \<Rightarrow> client option list option \<Rightarrow> client option list option" where
  "strip cid v =
     (case v of
        None \<Rightarrow> None
      | Some cs \<Rightarrow>
          if cid \<in> set (memberIDs cs)
          then (if cutOut cid cs = [] then None else Some (cutOut cid cs))
          else Some cs)"

subsection \<open>Calls to clients, as lists\<close>









section \<open>Example hubs\<close>

text \<open>
  A relay type \<^verbatim>\<open>Chat\<close> with \<^verbatim>\<open>func (c Chat) Broadcast(r *Relay, msg string)\<close> and
  \<^verbatim>\<open>func (c *Chat) Reset(r *Relay)\<close>, and a hub that has registered it.
\<close>

definition chatType :: rtype where
  "chatType =
     \<lparr>typeName = ''Chat'',
      valueMethods =
        [\<lparr>methodName = ''Broadcast'',
          accepts = (\<lambda>args. case args of [VString _] \<Rightarrow> True | _ \<Rightarrow> False)\<rparr>],
      pointerMethods =
        [\<lparr>methodName = ''Reset'', accepts = (\<lambda>args. args = [])\<rparr>]\<rparr>"

definition chatHub :: Exchange where
  "chatHub = RegisterRelay chatType (NewExchange 0)"

text \<open>A server call to a relay \<^verbatim>\<open>Ghost\<close>, which \<open>chatHub\<close> does not have.\<close>

definition ghostCall :: webSocketClientMessage where
  "ghostCall =
     \<lparr>Server = True, Relay = ''Ghost'', Method = ''Hi'', Arguments = Some [],
      ConnectionID = ''c1''\<rparr>"

text \<open>
  \<open>chatHub\<close> after two clients have negotiated the socket transport and opened their
  sockets, as connections 1 and 2.
\<close>

definition roomHub :: Exchange where
  "roomHub =
     snd (snd (upgradeWebSocket 2 ''c2'' []
       (snd (snd (upgradeWebSocket 1 ''c1'' []
         (addClient ''websocket'' ''c2'' (addClient ''websocket'' ''c1'' chatHub)))))))"


text \<open>\<open>roomHub\<close> with the groups \<^verbatim>\<open>room\<close> (both clients) and \<^verbatim>\<open>solo\<close> (the first).\<close>

definition partyHub :: Exchange where
  "partyHub = addToGroups [(''room'', ''c1''), (''room'', ''c2''), (''solo'', ''c1'')] roomHub"

text \<open>
  \<open>roomHub\<close> after \<^verbatim>\<open>addToGroup("room", "ghost")\<close>, for an id that no client has, and
  \<^verbatim>\<open>addToGroup("room", "c1")\<close>: the group \<^verbatim>\<open>room\<close> is a nil entry and the first client.
\<close>

definition nilHub :: Exchange where
  "nilHub = addToGroups [(''room'', ''ghost''), (''room'', ''c1'')] roomHub"

text \<open>
  What is left of a server call whose member \<^verbatim>\<open>S\<close> was a string: \<^verbatim>\<open>Unmarshal\<close> returns
  an error for it and has filled the other fields.
\<close>

definition typoCall :: webSocketClientMessage where
  "typoCall =
     \<lparr>Server = False, Relay = ''Chat'', Method = ''Broadcast'',
      Arguments = Some [VString ''hi''], ConnectionID = ''c1''\<rparr>"

text \<open>The handle of the relay \<^verbatim>\<open>Chat\<close> for a connection id.\<close>

definition chatHandle :: "string \<Rightarrow> Relay" where
  "chatHandle cid =
     \<lparr>Name = ''Chat'', RelayConnectionID = cid, reflectType = chatType, methods = []\<rparr>"


text \<open>
  \<open>roomHub\<close> after a third client has negotiated a transport \<^verbatim>\<open>bogus\<close>, which the
  Exchange does not have, and a fourth the socket transport.
\<close>

definition bogusHub :: Exchange where
  "bogusHub = addClient ''websocket'' ''c4'' (addClient ''bogus'' ''c3'' roomHub)"

text \<open>A hub with \<^verbatim>\<open>verbosity\<close> 1, the relay \<^verbatim>\<open>Chat\<close> and one client.\<close>

definition loudHub :: Exchange where
  "loudHub = addClient ''websocket'' ''c1'' (RegisterRelay chatType (NewExchange 1))"

section \<open>Properties\<close>

subsection \<open>Slices\<close>

lemma elems_simps [simp]: "elems None = []" "elems (Some xs) = xs"
  by (simp_all add: elems_def)

subsection \<open>Facts about the example hubs\<close>

lemma chatHub_relays: "map Name (relays chatHub) = [''Chat'']"
  by (simp add: chatHub_def RegisterRelay_def NewExchange_def chatType_def)

lemma chatHub_no_ghost: "\<forall>r \<in> set (relays chatHub). Name r \<noteq> ''Ghost''"
  using chatHub_relays by (auto simp: map_eq_Cons_conv)

lemma chatHub_invoked: "invoked chatHub = []"
  by (simp add: chatHub_def RegisterRelay_def NewExchange_def)

subsection \<open>Dispatch of server calls\<close>

lemma getRelayByName_unknown:
  "\<forall>r \<in> set (relays e). Name r \<noteq> name \<Longrightarrow> getRelayByName name cid e = None"
proof -
  assume "\<forall>r \<in> set (relays e). Name r \<noteq> name"
  then have "find (\<lambda>r. Name r = name) (relays e) = None"
    by (auto simp: find_None_iff)
  then show ?thesis by (simp add: getRelayByName_def)
qed

text \<open>
  C1. The specification says that a call naming a relay that is not registered ends with
  \<^verbatim>\<open>UnknownRelay\<close>, handled locally, and that the missing definition is never
  dereferenced. What the code does: \<^verbatim>\<open>getRelayByName\<close> returns nil for such a name,
  and \<^verbatim>\<open>callRelayMethod\<close> reads \<^verbatim>\<open>relay.t\<close> of that nil handle. Through \<^verbatim>\<open>callServer\<close>
  the panic is the panic of a goroutine started with \<^verbatim>\<open>go\<close>, which ends the process;
  in the socket read loop it ends the loop. No method is invoked and the state is as
  before.
\<close>

theorem unknown_relay_dereferenced:
  assumes "\<forall>r \<in> set (relays e). Name r \<noteq> name"
  shows "getRelayByName name cid e = None
    \<and> callRelayMethod (getRelayByName name cid e) fn args e = (Inl NilDereference, e)
    \<and> (Relay msg = name \<longrightarrow>
         callServer msg (cid # q) e = (GoroutinePanic NilDereference, e))
    \<and> (Relay m = name \<longrightarrow>
         read (Message False m # rest) e = (ReadPanic NilDereference, e))"
  using getRelayByName_unknown [OF assms]
  by (simp add: callRelayMethod_def callServer_def CallClientFunction_def)

theorem unknown_relay_dereferenced_witness:
  "callServer ghostCall [''c1''] chatHub = (GoroutinePanic NilDereference, chatHub)
   \<and> read [Message False ghostCall] chatHub = (ReadPanic NilDereference, chatHub)
   \<and> invoked chatHub = []"
proof -
  have g: "Relay ghostCall = ''Ghost''" by (simp add: ghostCall_def)
  show ?thesis
    using unknown_relay_dereferenced [OF chatHub_no_ghost, of "''c1''" "''Hi''" "Some []"
        ghostCall "[]" ghostCall "[]"] g
    by (simp add: chatHub_invoked del: read.simps)
qed

lemma find_name_Some:
  "find P xs = Some x \<Longrightarrow> P x \<and> x \<in> set xs"
  by (induction xs) (auto split: if_splits)

lemma find_in_prefix:
  "fn \<in> methodName ` set xs \<Longrightarrow>
     \<exists>m. find (\<lambda>m. methodName m = fn) (xs @ ys) = Some m \<and> methodName m = fn \<and> m \<in> set xs"
  by (induction xs) auto

lemma MethodByName_None:
  "MethodByName ty fn = None \<longleftrightarrow>
     fn \<notin> methodName ` set (valueMethods ty) \<and> fn \<notin> methodName ` set (pointerMethods ty)"
  by (auto simp: MethodByName_def find_None_iff)

lemma MethodByName_Some:
  "MethodByName ty fn = Some m \<Longrightarrow>
     methodName m = fn \<and> m \<in> set (valueMethods ty) \<union> set (pointerMethods ty)"
  using find_name_Some [of "\<lambda>m. methodName m = fn" "valueMethods ty @ pointerMethods ty" m]
  by (simp add: MethodByName_def)

lemma getRelayByName_found:
  "find (\<lambda>r. Name r = name) (relays e) = Some d \<Longrightarrow>
     getRelayByName name cid e =
       Some \<lparr>Name = name, RelayConnectionID = cid, reflectType = reflectType d, methods = []\<rparr>"
  by (simp add: getRelayByName_def)

text \<open>
  C2, as the code has it. For a registered definition, whose \<open>methods\<close> are the names
  of the method set of its type: a server call with a method name of that set, and with
  arguments that the method accepts, calls exactly that method, once, with the handle
  first and the arguments after it in their order; a server call with a name that is
  neither in that set nor the name of a pointer-receiver method of the type returns the
  unknown-method error and calls nothing. The lookup is by reflection on a fresh
  \<^verbatim>\<open>*T\<close>; the registered set is not consulted.
\<close>

theorem dispatch_by_method_set:
  assumes d: "find (\<lambda>r. Name r = name) (relays e) = Some d"
    and reg: "methods d = getMethodsForType (reflectType d)"
  shows "(fn \<in> set (methods d) \<and> (\<forall>m. MethodByName (reflectType d) fn = Some m \<longrightarrow> accepts m (elems args)) \<longrightarrow>
            (\<exists>h. getRelayByName name cid e = Some h \<and> Name h = name \<and> RelayConnectionID h = cid
               \<and> callRelayMethod (Some h) fn args e =
                   (Inr None,
                    e\<lparr>invoked := invoked e @
                       [\<lparr>invokedMethod = fn, invokedWith = RelayValue h # map ArgValue (elems args)\<rparr>]\<rparr>)))
       \<and> (fn \<notin> set (methods d) \<and> fn \<notin> methodName ` set (pointerMethods (reflectType d)) \<longrightarrow>
            callRelayMethod (getRelayByName name cid e) fn args e =
              (Inr (Some (UnknownMethod fn name)), e))"
proof (intro conjI impI)
  let ?h = "\<lparr>Name = name, RelayConnectionID = cid, reflectType = reflectType d, methods = []\<rparr>"
  have h: "getRelayByName name cid e = Some ?h"
    using d by (rule getRelayByName_found)
  {
    assume a: "fn \<in> set (methods d) \<and> (\<forall>m. MethodByName (reflectType d) fn = Some m \<longrightarrow> accepts m (elems args))"
    then have "fn \<in> methodName ` set (valueMethods (reflectType d))"
      using reg by (simp add: getMethodsForType_def)
    then obtain m where m: "MethodByName (reflectType d) fn = Some m" "methodName m = fn"
      using find_in_prefix [of fn "valueMethods (reflectType d)" "pointerMethods (reflectType d)"]
      by (auto simp: MethodByName_def)
    with a have "accepts m (elems args)" by blast
    with m have "callRelayMethod (Some ?h) fn args e =
        (Inr None, e\<lparr>invoked := invoked e @
           [\<lparr>invokedMethod = fn, invokedWith = RelayValue ?h # map ArgValue (elems args)\<rparr>]\<rparr>)"
      by (simp add: callRelayMethod_def buildArgValues_def)
    with h show "\<exists>h. getRelayByName name cid e = Some h \<and> Name h = name \<and> RelayConnectionID h = cid
               \<and> callRelayMethod (Some h) fn args e =
                   (Inr None,
                    e\<lparr>invoked := invoked e @
                       [\<lparr>invokedMethod = fn, invokedWith = RelayValue h # map ArgValue (elems args)\<rparr>]\<rparr>)"
      by simp
  }
  {
    assume a: "fn \<notin> set (methods d) \<and> fn \<notin> methodName ` set (pointerMethods (reflectType d))"
    then have "MethodByName (reflectType d) fn = None"
      using reg by (simp add: MethodByName_None getMethodsForType_def)
    then show "callRelayMethod (getRelayByName name cid e) fn args e =
              (Inr (Some (UnknownMethod fn name)), e)"
      using h by (simp add: callRelayMethod_def)
  }
qed

lemma chatHub_find: "find (\<lambda>r. Name r = ''Chat'') (relays chatHub) =
   Some \<lparr>Name = ''Chat'', RelayConnectionID = [], reflectType = chatType, methods = [''Broadcast'']\<rparr>"
  by (simp add: chatHub_def RegisterRelay_def NewExchange_def chatType_def getMethodsForType_def)

lemma chatType_methods: "getMethodsForType chatType = [''Broadcast'']"
  by (simp add: chatType_def getMethodsForType_def)

lemma chatType_Broadcast:
  "MethodByName chatType ''Broadcast'' = Some m \<Longrightarrow> accepts m [VString ''hi'']"
  by (auto simp: MethodByName_def chatType_def)

theorem dispatch_by_method_set_witness:
  "callRelayMethod (getRelayByName ''Chat'' ''c1'' chatHub) ''Broadcast'' (Some [VString ''hi'']) chatHub =
     (Inr None,
      chatHub\<lparr>invoked :=
        [\<lparr>invokedMethod = ''Broadcast'',
          invokedWith =
            [RelayValue \<lparr>Name = ''Chat'', RelayConnectionID = ''c1'', reflectType = chatType,
                         methods = []\<rparr>,
             ArgValue (VString ''hi'')]\<rparr>]\<rparr>)
   \<and> callRelayMethod (getRelayByName ''Chat'' ''c1'' chatHub) ''Whisper'' None chatHub =
       (Inr (Some (UnknownMethod ''Whisper'' ''Chat'')), chatHub)"
proof -
  note t = dispatch_by_method_set [OF chatHub_find, of "''Broadcast''" "Some [VString ''hi'']" "''c1''"]
  have h: "getRelayByName ''Chat'' ''c1'' chatHub =
      Some \<lparr>Name = ''Chat'', RelayConnectionID = ''c1'', reflectType = chatType, methods = []\<rparr>"
    using getRelayByName_found [OF chatHub_find] by simp
  have 1: "callRelayMethod (getRelayByName ''Chat'' ''c1'' chatHub) ''Broadcast'' (Some [VString ''hi'']) chatHub =
     (Inr None,
      chatHub\<lparr>invoked :=
        [\<lparr>invokedMethod = ''Broadcast'',
          invokedWith =
            [RelayValue \<lparr>Name = ''Chat'', RelayConnectionID = ''c1'', reflectType = chatType,
                         methods = []\<rparr>,
             ArgValue (VString ''hi'')]\<rparr>]\<rparr>)"
    using t h chatType_Broadcast by (auto simp: chatType_methods chatHub_invoked)
  have "''Whisper'' \<notin> methodName ` set (pointerMethods chatType)"
    by (simp add: chatType_def)
  then have 2: "callRelayMethod (getRelayByName ''Chat'' ''c1'' chatHub) ''Whisper'' None chatHub =
       (Inr (Some (UnknownMethod ''Whisper'' ''Chat'')), chatHub)"
    using dispatch_by_method_set [OF chatHub_find, of "''Whisper''" None "''c1''"]
    by (simp add: chatType_methods)
  from 1 2 show ?thesis by simp
qed

text \<open>
  C2 as the specification states it fails: \<^verbatim>\<open>Reset\<close> has a pointer receiver, so registration does not
  collect it, and a server call that names it is carried out.
\<close>

theorem unregistered_method_invoked:
  "map methods (relays chatHub) = [[''Broadcast'']]
   \<and> fst (callRelayMethod (getRelayByName ''Chat'' ''c1'' chatHub) ''Reset'' (Some []) chatHub) = Inr None
   \<and> map invokedMethod
        (invoked (snd (callRelayMethod (getRelayByName ''Chat'' ''c1'' chatHub) ''Reset'' (Some []) chatHub)))
       = [''Reset'']"
  by (simp add: getRelayByName_found [OF chatHub_find] callRelayMethod_def MethodByName_def
      chatType_def chatHub_invoked)
    (simp add: chatHub_def RegisterRelay_def NewExchange_def getMethodsForType_def chatType_def)

subsection \<open>The envelope on the socket transport\<close>

lemma roomHub_eq:
  "roomHub = chatHub
     \<lparr>groups := [''Global'' \<mapsto>
         [Some \<lparr>ClientConnectionID = ''c1'', transport = Some WebSocketTransport\<rparr>,
          Some \<lparr>ClientConnectionID = ''c2'', transport = Some WebSocketTransport\<rparr>]],
      connections := [''c1'' \<mapsto> 1, ''c2'' \<mapsto> 2],
      conns := (conns chatHub)
        (1 := \<lparr>connID = ''c1'', out = [], outClosed = False\<rparr>,
         2 := \<lparr>connID = ''c2'', out = [], outClosed = False\<rparr>)\<rparr>"
  by (simp add: roomHub_def upgradeWebSocket_def listenEvent_def addClient_def groupMembers_def
      transportNamed_def chatHub_def RegisterRelay_def NewExchange_def)




lemma roomHub_find: "find (\<lambda>r. Name r = ''Chat'') (relays roomHub) =
   Some \<lparr>Name = ''Chat'', RelayConnectionID = [], reflectType = chatType, methods = [''Broadcast'']\<rparr>"
  by (simp add: roomHub_eq chatHub_find)





subsection \<open>Groups\<close>

lemma memberIDs_append: "memberIDs (xs @ ys) = memberIDs xs @ memberIDs ys"
  by (induction xs rule: memberIDs.induct) auto

lemma indexFrom_ge: "indexFrom i cid cs \<noteq> - 1 \<Longrightarrow> 0 \<le> i \<Longrightarrow> i \<le> indexFrom i cid cs"
proof (induction cs arbitrary: i)
  case Nil
  then show ?case by simp
next
  case (Cons c cs)
  then show ?case by (fastforce split: if_splits)
qed

lemma indexFrom_absent:
  "0 \<le> i \<Longrightarrow> indexFrom i cid cs = - 1 \<longleftrightarrow> cid \<notin> set (memberIDs cs)"
proof (induction cs arbitrary: i)
  case Nil
  then show ?case by simp
next
  case (Cons c cs)
  show ?case
  proof (cases c)
    case None
    with Cons show ?thesis by simp
  next
    case (Some a)
    with Cons show ?thesis by auto
  qed
qed

lemma getClientIndexInGroup_absent:
  "getClientIndexInGroup g cid e = - 1 \<longleftrightarrow> cid \<notin> set (memberIDs (groupMembers g e))"
  by (simp add: getClientIndexInGroup_def indexFrom_absent)

lemma findClient_id: "findClient cid cs = Inr (Some c) \<Longrightarrow> ClientConnectionID c = cid"
  by (induction cid cs rule: findClient.induct) (auto split: if_splits)

lemma groupMembers_update:
  "groupMembers g (e\<lparr>groups := (groups e)(h \<mapsto> xs)\<rparr>) = (if g = h then xs else groupMembers g e)"
  by (simp add: groupMembers_def)

lemma addToGroup_present:
  "cid \<in> set (memberIDs (groupMembers g e)) \<Longrightarrow> snd (addToGroup g cid e) = e"
  by (simp add: addToGroup_def getClientIndexInGroup_absent)

lemma addToGroup_absent:
  assumes "cid \<notin> set (memberIDs (groupMembers g e))"
  shows "snd (addToGroup g cid e) = e
       \<or> (\<exists>c. (c = None \<or> (\<exists>k. c = Some k \<and> ClientConnectionID k = cid))
             \<and> snd (addToGroup g cid e) = e\<lparr>groups := (groups e)(g \<mapsto> groupMembers g e @ [c])\<rparr>)"
proof (cases "getClientByConnectionID cid e")
  case (Inl p)
  with assms show ?thesis by (simp add: addToGroup_def getClientIndexInGroup_absent)
next
  case (Inr c)
  then have "c = None \<or> (\<exists>k. c = Some k \<and> ClientConnectionID k = cid)"
    using findClient_id [of cid "groupMembers ''Global'' e"]
    by (cases c) (auto simp: getClientByConnectionID_def)
  moreover have "snd (addToGroup g cid e) = e\<lparr>groups := (groups e)(g \<mapsto> groupMembers g e @ [c])\<rparr>"
    using Inr assms by (simp add: addToGroup_def getClientIndexInGroup_absent Let_def)
  ultimately show ?thesis by blast
qed

lemma addToGroup_once:
  assumes "\<forall>g. oncePerGroup (groupMembers g e)"
  shows "\<forall>g. oncePerGroup (groupMembers g (snd (addToGroup grp cid e)))"
proof (cases "cid \<in> set (memberIDs (groupMembers grp e))")
  case True
  with assms show ?thesis by (simp add: addToGroup_present)
next
  case False
  from addToGroup_absent [OF False] show ?thesis
  proof
    assume "snd (addToGroup grp cid e) = e"
    with assms show ?thesis by simp
  next
    assume "\<exists>c. (c = None \<or> (\<exists>k. c = Some k \<and> ClientConnectionID k = cid))
             \<and> snd (addToGroup grp cid e) = e\<lparr>groups := (groups e)(grp \<mapsto> groupMembers grp e @ [c])\<rparr>"
    then obtain c where c: "c = None \<or> (\<exists>k. c = Some k \<and> ClientConnectionID k = cid)"
      and s: "snd (addToGroup grp cid e) = e\<lparr>groups := (groups e)(grp \<mapsto> groupMembers grp e @ [c])\<rparr>"
      by blast
    have "oncePerGroup (groupMembers grp e @ [c])"
      using c False assms [rule_format, of grp]
      by (auto simp: oncePerGroup_def memberIDs_append)
    with assms show ?thesis
      by (simp add: s groupMembers_update)
  qed
qed

lemma addToGroups_once:
  "\<forall>g. oncePerGroup (groupMembers g e) \<Longrightarrow> \<forall>g. oncePerGroup (groupMembers g (addToGroups adds e))"
proof (induction adds arbitrary: e)
  case Nil
  then show ?case by (simp add: addToGroups_def)
next
  case (Cons a adds)
  obtain g cid where a: "a = (g, cid)" by (cases a)
  have "\<forall>h. oncePerGroup (groupMembers h (snd (addToGroup g cid e)))"
    using Cons.prems by (rule addToGroup_once)
  then have "\<forall>h. oncePerGroup (groupMembers h (addToGroups adds (snd (addToGroup g cid e))))"
    by (rule Cons.IH)
  then show ?case by (simp add: addToGroups_def a)
qed

text \<open>
  C4. From a state in which every group has every client at most once, every sequence
  of \<^verbatim>\<open>addToGroup\<close> calls leads to such a state, and so does every single call; and
  \<^verbatim>\<open>addToGroup\<close> on a group that already has a member with that connection id (the
  ids are compared, not the pointers) leaves the state as it is.
\<close>

theorem addToGroup_at_most_once:
  assumes "\<forall>g. oncePerGroup (groupMembers g e)"
  shows "(\<forall>g. oncePerGroup (groupMembers g (addToGroups adds e)))
       \<and> (\<forall>g. oncePerGroup (groupMembers g (snd (addToGroup grp cid e))))
       \<and> (cid \<in> set (memberIDs (groupMembers grp e)) \<longrightarrow> snd (addToGroup grp cid e) = e)"
  using addToGroups_once [OF assms] addToGroup_once [OF assms] addToGroup_present
  by blast


lemma roomHub_members:
  "groupMembers g roomHub =
     (if g = ''Global''
      then [Some \<lparr>ClientConnectionID = ''c1'', transport = Some WebSocketTransport\<rparr>,
            Some \<lparr>ClientConnectionID = ''c2'', transport = Some WebSocketTransport\<rparr>]
      else [])"
  by (simp add: roomHub_eq groupMembers_def)

lemma roomHub_once: "\<forall>g. oncePerGroup (groupMembers g roomHub)"
  by (simp add: roomHub_members oncePerGroup_def)

lemma partyHub_eq:
  "partyHub = roomHub
     \<lparr>groups := [''Global'' \<mapsto>
         [Some \<lparr>ClientConnectionID = ''c1'', transport = Some WebSocketTransport\<rparr>,
          Some \<lparr>ClientConnectionID = ''c2'', transport = Some WebSocketTransport\<rparr>],
        ''room'' \<mapsto>
         [Some \<lparr>ClientConnectionID = ''c1'', transport = Some WebSocketTransport\<rparr>,
          Some \<lparr>ClientConnectionID = ''c2'', transport = Some WebSocketTransport\<rparr>],
        ''solo'' \<mapsto>
         [Some \<lparr>ClientConnectionID = ''c1'', transport = Some WebSocketTransport\<rparr>]]\<rparr>"
  by (simp add: partyHub_def addToGroups_def addToGroup_def getClientIndexInGroup_def
      getClientByConnectionID_def groupMembers_def roomHub_eq chatHub_def RegisterRelay_def
      NewExchange_def)

theorem addToGroup_at_most_once_witness:
  "oncePerGroup (groupMembers ''room''
      (addToGroups [(''room'', ''c1''), (''room'', ''c1''), (''room'', ''c2'')] roomHub))
   \<and> snd (addToGroup ''Global'' ''c2'' roomHub) = roomHub"
  using addToGroup_at_most_once [OF roomHub_once,
      of "[(''room'', ''c1''), (''room'', ''c1''), (''room'', ''c2'')]" "''Global''" "''c2''"]
  by (simp add: roomHub_members)

lemma indexFrom_cut:
  "0 \<le> i \<Longrightarrow> indexFrom i cid cs \<noteq> - 1 \<Longrightarrow>
     take (nat (indexFrom i cid cs - i)) cs @ drop (nat (indexFrom i cid cs - i + 1)) cs
       = cutOut cid cs"
proof (induction cs arbitrary: i)
  case Nil
  then show ?case by simp
next
  case (Cons c cs)
  show ?case
  proof (cases "c \<noteq> None \<and> ClientConnectionID (the c) = cid")
    case True
    then show ?thesis by simp
  next
    case False
    then have r: "indexFrom i cid (c # cs) = indexFrom (i + 1) cid cs" by auto
    with Cons.prems have ne: "indexFrom (i + 1) cid cs \<noteq> - 1" by simp
    have ge: "i + 1 \<le> indexFrom (i + 1) cid cs"
      using indexFrom_ge [OF ne] Cons.prems by simp
    have ih: "take (nat (indexFrom (i + 1) cid cs - (i + 1))) cs
        @ drop (nat (indexFrom (i + 1) cid cs - (i + 1) + 1)) cs = cutOut cid cs"
      using Cons.IH [of "i + 1"] Cons.prems ne by simp
    have n1: "nat (indexFrom (i + 1) cid cs - i) = Suc (nat (indexFrom (i + 1) cid cs - (i + 1)))"
      using ge by simp
    have n2: "nat (indexFrom (i + 1) cid cs - i + 1)
        = Suc (nat (indexFrom (i + 1) cid cs - (i + 1) + 1))"
      using ge by simp
    show ?thesis
      using False ih by (simp only: r n1 n2 take_Suc_Cons drop_Suc_Cons cutOut.simps if_False append_Cons)
  qed
qed

lemma memberIDs_cut: "memberIDs (cutOut cid cs) = remove1 cid (memberIDs cs)"
  by (induction cs rule: memberIDs.induct) auto

lemma cut_absent: "cid \<notin> set (memberIDs cs) \<Longrightarrow> cutOut cid cs = cs"
  by (induction cs rule: memberIDs.induct) auto

lemma removeFromGroupByID_strip:
  "removeFromGroupByID g cid e = e\<lparr>groups := (groups e)(g := strip cid (groups e g))\<rparr>"
proof (cases "cid \<in> set (memberIDs (groupMembers g e))")
  case False
  then have "getClientIndexInGroup g cid e = - 1"
    by (simp add: getClientIndexInGroup_absent)
  moreover have "strip cid (groups e g) = groups e g"
    using False by (auto simp: strip_def groupMembers_def split: option.splits)
  ultimately show ?thesis
    by (simp add: removeFromGroupByID_def)
next
  case True
  then have ne: "indexFrom 0 cid (groupMembers g e) \<noteq> - 1"
    by (simp add: indexFrom_absent)
  then have gt: "getClientIndexInGroup g cid e > - 1"
    using indexFrom_ge [OF ne] by (simp add: getClientIndexInGroup_def)
  have c: "take (nat (getClientIndexInGroup g cid e)) (groupMembers g e)
      @ drop (nat (getClientIndexInGroup g cid e + 1)) (groupMembers g e)
      = cutOut cid (groupMembers g e)"
    using indexFrom_cut [of 0 cid "groupMembers g e"] ne by (simp add: getClientIndexInGroup_def)
  obtain cs where cs: "groups e g = Some cs"
    using True by (cases "groups e g") (auto simp: groupMembers_def)
  then have s: "strip cid (groups e g) = (if cutOut cid cs = [] then None else Some (cutOut cid cs))"
    using True by (simp add: strip_def groupMembers_def)
  have m: "groupMembers g e = cs" using cs by (simp add: groupMembers_def)
  have "removeFromGroupByID g cid e =
      (if length (cutOut cid (groupMembers g e)) = 0
       then e\<lparr>groups := (groups e)(g := None)\<rparr>
       else e\<lparr>groups := (groups e)(g \<mapsto> cutOut cid (groupMembers g e))\<rparr>)"
    unfolding removeFromGroupByID_def Let_def c using gt by simp
  then show ?thesis
    by (simp add: s m)
qed

lemma removeFromAllGroupsIn_strip:
  "distinct ks \<Longrightarrow>
     removeFromAllGroupsIn ks cid e =
       e\<lparr>groups := (\<lambda>g. if g \<in> set ks then strip cid (groups e g) else groups e g)\<rparr>"
proof (induction ks arbitrary: e)
  case Nil
  then show ?case by (simp add: removeFromAllGroupsIn_def)
next
  case (Cons k ks)
  let ?e = "removeFromGroupByID k cid e"
  have "removeFromAllGroupsIn (k # ks) cid e = removeFromAllGroupsIn ks cid ?e"
    by (simp add: removeFromAllGroupsIn_def)
  also have "\<dots> = ?e\<lparr>groups := (\<lambda>g. if g \<in> set ks then strip cid (groups ?e g) else groups ?e g)\<rparr>"
    using Cons by simp
  also have "\<dots> = e\<lparr>groups := (\<lambda>g. if g \<in> set (k # ks) then strip cid (groups e g) else groups e g)\<rparr>"
    using Cons.prems by (auto simp: removeFromGroupByID_strip fun_eq_iff)
  finally show ?case .
qed

lemma removeFromAllGroups_strip:
  "removeFromAllGroups cid e = e\<lparr>groups := (\<lambda>g. strip cid (groups e g))\<rparr>"
  by (simp add: removeFromAllGroups_def removeFromGroupByID_strip)

lemma removeFromAllGroupsIn_order:
  assumes "distinct ks" and "set ks = dom (groups e)"
  shows "removeFromAllGroupsIn ks cid e = removeFromAllGroups cid e"
proof -
  have "(\<lambda>g. if g \<in> set ks then strip cid (groups e g) else groups e g)
      = (\<lambda>g. strip cid (groups e g))"
    using assms(2) by (auto simp: fun_eq_iff strip_def dom_def)
  then show ?thesis
    by (simp add: removeFromAllGroupsIn_strip [OF assms(1)] removeFromAllGroups_strip)
qed

lemma strip_clears:
  "oncePerGroup (case v of None \<Rightarrow> [] | Some cs \<Rightarrow> cs) \<Longrightarrow>
     cid \<notin> set (memberIDs (case strip cid v of None \<Rightarrow> [] | Some cs \<Rightarrow> cs))"
  by (auto simp: strip_def oncePerGroup_def memberIDs_cut split: option.splits)

lemma strip_absent:
  "cid \<notin> set (memberIDs (case v of None \<Rightarrow> [] | Some cs \<Rightarrow> cs)) \<Longrightarrow> strip cid v = v"
  by (auto simp: strip_def split: option.splits)

lemma cut_last:
  "cid \<in> set (memberIDs cs) \<Longrightarrow> length cs = 1 \<Longrightarrow> cutOut cid cs = []"
  by (induction cs rule: memberIDs.induct) auto

lemma strip_last:
  "cid \<in> set (memberIDs (case v of None \<Rightarrow> [] | Some cs \<Rightarrow> cs)) \<Longrightarrow>
     length (case v of None \<Rightarrow> [] | Some cs \<Rightarrow> cs) = 1 \<Longrightarrow> strip cid v = None"
  by (auto simp: strip_def cut_last split: option.splits)

lemma length_cutOut:
  "cid \<in> set (memberIDs cs) \<Longrightarrow> Suc (length (cutOut cid cs)) = length cs"
  by (induction cs rule: memberIDs.induct) auto

lemma strip_present:
  assumes "cid \<in> set (memberIDs (case v of None \<Rightarrow> [] | Some cs \<Rightarrow> cs))"
  shows "strip cid v =
     (if length (case v of None \<Rightarrow> [] | Some cs \<Rightarrow> cs) = 1 then None
      else Some (cutOut cid (case v of None \<Rightarrow> [] | Some cs \<Rightarrow> cs)))"
proof (cases v)
  case None
  with assms show ?thesis by simp
next
  case (Some cs)
  with assms have m: "cid \<in> set (memberIDs cs)" by simp
  from length_cutOut [OF m] have "cutOut cid cs = [] \<longleftrightarrow> length cs = 1"
    by (cases "cutOut cid cs") auto
  with Some m show ?thesis by (simp add: strip_def)
qed

text \<open>
  C5, as the code has it. In a state in which every group has every client at most
  once, and for every order \<open>ks\<close> in which the loop may visit the keys of the map:
  \<^verbatim>\<open>removeFromAllGroups(id)\<close> leaves no group with a member of that id; a group that
  had no such member is as before; a group that had one is deleted from the map when
  that member was its only entry, and otherwise stays, as its slice without that
  entry (the code deletes a group when \<^verbatim>\<open>len\<close> of its slice is 0, and nil entries
  count); and the result does not depend on the order.
\<close>

theorem removeFromAllGroups_clears:
  assumes "distinct ks" and "set ks = dom (groups e)"
    and "\<forall>g. oncePerGroup (groupMembers g e)"
  shows "(\<forall>g. cid \<notin> set (memberIDs (groupMembers g (removeFromAllGroupsIn ks cid e))))
       \<and> (\<forall>g. cid \<notin> set (memberIDs (groupMembers g e)) \<longrightarrow>
              groups (removeFromAllGroupsIn ks cid e) g = groups e g)
       \<and> (\<forall>g. cid \<in> set (memberIDs (groupMembers g e)) \<longrightarrow>
              groups (removeFromAllGroupsIn ks cid e) g =
                (if length (groupMembers g e) = 1 then None
                 else Some (cutOut cid (groupMembers g e))))
       \<and> removeFromAllGroupsIn ks cid e = removeFromAllGroups cid e"
proof -
  have eq: "removeFromAllGroupsIn ks cid e = e\<lparr>groups := (\<lambda>g. strip cid (groups e g))\<rparr>"
    using removeFromAllGroupsIn_order [OF assms(1,2)] by (simp add: removeFromAllGroups_strip)
  have 1: "\<forall>g. cid \<notin> set (memberIDs (groupMembers g (removeFromAllGroupsIn ks cid e)))"
    using assms(3) strip_clears [of _ cid] by (simp add: eq groupMembers_def)
  have 2: "\<forall>g. cid \<notin> set (memberIDs (groupMembers g e)) \<longrightarrow>
              groups (removeFromAllGroupsIn ks cid e) g = groups e g"
    using strip_absent [of cid] by (simp add: eq groupMembers_def)
  have 3: "\<forall>g. cid \<in> set (memberIDs (groupMembers g e)) \<longrightarrow>
              groups (removeFromAllGroupsIn ks cid e) g =
                (if length (groupMembers g e) = 1 then None
                 else Some (cutOut cid (groupMembers g e)))"
    using strip_present [of cid] by (simp add: eq groupMembers_def)
  from 1 2 3 removeFromAllGroupsIn_order [OF assms(1,2)] show ?thesis by blast
qed

lemma partyHub_members:
  "groupMembers g partyHub =
     (if g = ''solo''
      then [Some \<lparr>ClientConnectionID = ''c1'', transport = Some WebSocketTransport\<rparr>]
      else if g = ''room'' \<or> g = ''Global''
      then [Some \<lparr>ClientConnectionID = ''c1'', transport = Some WebSocketTransport\<rparr>,
            Some \<lparr>ClientConnectionID = ''c2'', transport = Some WebSocketTransport\<rparr>]
      else [])"
  by (simp add: partyHub_eq groupMembers_def)

lemma partyHub_once: "\<forall>g. oncePerGroup (groupMembers g partyHub)"
  by (simp add: partyHub_members oncePerGroup_def)

lemma partyHub_dom: "set [''Global'', ''room'', ''solo''] = dom (groups partyHub)"
  by (auto simp: partyHub_eq split: if_splits)

theorem removeFromAllGroups_clears_witness:
  "''c1'' \<notin> set (memberIDs (groupMembers ''room''
       (removeFromAllGroupsIn [''Global'', ''room'', ''solo''] ''c1'' partyHub)))
   \<and> groups (removeFromAllGroupsIn [''Global'', ''room'', ''solo''] ''c1'' partyHub) ''solo'' = None
   \<and> groups (removeFromAllGroupsIn [''Global'', ''room'', ''solo''] ''c1'' partyHub) ''none''
       = groups partyHub ''none''"
proof -
  have d: "distinct [''Global'', ''room'', ''solo'']" by simp
  note t = removeFromAllGroups_clears [OF d partyHub_dom partyHub_once, of "''c1''"]
  let ?e = "removeFromAllGroupsIn [''Global'', ''room'', ''solo''] ''c1'' partyHub"
  from t have 1: "''c1'' \<notin> set (memberIDs (groupMembers ''room'' ?e))"
    by blast
  have "''c1'' \<in> set (memberIDs (groupMembers ''solo'' partyHub))"
    by (simp add: partyHub_members)
  with t have "groups ?e ''solo'' =
      (if length (groupMembers ''solo'' partyHub) = 1 then None
       else Some (cutOut ''c1'' (groupMembers ''solo'' partyHub)))"
    by blast
  then have 2: "groups ?e ''solo'' = None"
    by (simp add: partyHub_members)
  have "''c1'' \<notin> set (memberIDs (groupMembers ''none'' partyHub))"
    by (simp add: partyHub_members)
  with t have 3: "groups ?e ''none'' = groups partyHub ''none''"
    by blast
  from 1 2 3 show ?thesis by blast
qed

lemma removeFromAllGroups_partyHub:
  "groups (removeFromAllGroupsIn [''Global'', ''room'', ''solo''] ''c1'' partyHub) =
     [''Global'' \<mapsto> [Some \<lparr>ClientConnectionID = ''c2'', transport = Some WebSocketTransport\<rparr>],
      ''room'' \<mapsto> [Some \<lparr>ClientConnectionID = ''c2'', transport = Some WebSocketTransport\<rparr>]]"
  by (simp add: removeFromAllGroupsIn_def removeFromGroupByID_def getClientIndexInGroup_def
      groupMembers_def partyHub_eq fun_eq_iff)

lemma nilHub_eq:
  "nilHub = roomHub
     \<lparr>groups := [''Global'' \<mapsto>
         [Some \<lparr>ClientConnectionID = ''c1'', transport = Some WebSocketTransport\<rparr>,
          Some \<lparr>ClientConnectionID = ''c2'', transport = Some WebSocketTransport\<rparr>],
        ''room'' \<mapsto>
         [None, Some \<lparr>ClientConnectionID = ''c1'', transport = Some WebSocketTransport\<rparr>]]\<rparr>"
  by (simp add: nilHub_def addToGroups_def addToGroup_def getClientIndexInGroup_def
      getClientByConnectionID_def groupMembers_def roomHub_eq chatHub_def RegisterRelay_def
      NewExchange_def)

text \<open>
  C5 as the specification states it fails. In \<open>nilHub\<close> every group has every client
  at most once and the client \<^verbatim>\<open>c1\<close> is the only member of the group \<^verbatim>\<open>room\<close>, next to
  a nil entry. After \<^verbatim>\<open>removeFromAllGroups("c1")\<close> the group has no member left, and it
  is still in the map, as the slice of the nil entry.
\<close>

theorem group_of_nil_entries_kept:
  "set [''Global'', ''room''] = dom (groups nilHub)
   \<and> memberIDs (groupMembers ''Global'' nilHub) = [''c1'', ''c2'']
   \<and> memberIDs (groupMembers ''room'' nilHub) = [''c1'']
   \<and> groups (removeFromAllGroupsIn [''Global'', ''room''] ''c1'' nilHub) ''room'' = Some [None]
   \<and> memberIDs (groupMembers ''room''
        (removeFromAllGroupsIn [''Global'', ''room''] ''c1'' nilHub)) = []"
proof -
  have 1: "set [''Global'', ''room''] = dom (groups nilHub)"
    by (auto simp: nilHub_eq split: if_splits)
  have 2: "groups (removeFromAllGroupsIn [''Global'', ''room''] ''c1'' nilHub) ''room''
      = Some [None]"
    by (simp add: removeFromAllGroupsIn_def removeFromGroupByID_def getClientIndexInGroup_def
        groupMembers_def nilHub_eq)
  show ?thesis
    using 1 2 by (simp add: groupMembers_def) (simp add: nilHub_eq)
qed

subsection \<open>The socket transport\<close>

text \<open>
  C7. \<^verbatim>\<open>CallClientFunction\<close> of the socket transport, for a handle whose connection
  id is not in the connection table: nothing is sent, nothing panics and no error comes
  back, and the whole state (every queue, the table, the groups) is as before.
\<close>

theorem CallClientFunction_miss:
  "connections e (RelayConnectionID r) = None \<longrightarrow>
     CallClientFunction (Some r) fn args e = (None, e)"
  by (simp add: CallClientFunction_def)

theorem CallClientFunction_miss_witness:
  "CallClientFunction
     (Some \<lparr>Name = ''Chat'', RelayConnectionID = ''c9'', reflectType = chatType, methods = []\<rparr>)
     ''hello'' (Some [VString ''x'']) roomHub = (None, roomHub)"
proof -
  have "connections roomHub ''c9'' = None" by (simp add: roomHub_eq)
  then show ?thesis
    using CallClientFunction_miss [of roomHub
        "\<lparr>Name = ''Chat'', RelayConnectionID = ''c9'', reflectType = chatType, methods = []\<rparr>"
        "''hello''" "Some [VString ''x'']"]
    by simp
qed

lemma upgradeWebSocket_open:
  "read inputs (e\<lparr>conns := (conns e)(c := \<lparr>connID = cid, out = [], outClosed = False\<rparr>),
                  connections := (connections e)(cid \<mapsto> c)\<rparr>) = (Reading, e') \<Longrightarrow>
   upgradeWebSocket c cid inputs e = (Reading, None, e')"
  by (simp add: upgradeWebSocket_def listenEvent_def)

text \<open>
  C8. A message that does not decode is dropped: the read loop goes on with the next
  input in the same state, so nothing was dispatched; with no further input the loop is
  still reading, and the handler of the connection has sent no disconnect: the
  connection is in the table and its queue is open.
\<close>

theorem read_drops_undecodable:
  "read (Message True m # rest) e = read rest e
   \<and> read [Message True m] e = (Reading, e)
   \<and> upgradeWebSocket c cid [Message True m] e =
       (Reading, None,
        e\<lparr>conns := (conns e)(c := \<lparr>connID = cid, out = [], outClosed = False\<rparr>),
          connections := (connections e)(cid \<mapsto> c)\<rparr>)"
proof -
  have 2: "\<And>e. read [Message True m] e = (Reading, e)" by simp
  have 3: "upgradeWebSocket c cid [Message True m] e =
         (Reading, None,
          e\<lparr>conns := (conns e)(c := \<lparr>connID = cid, out = [], outClosed = False\<rparr>),
            connections := (connections e)(cid \<mapsto> c)\<rparr>)"
    by (rule upgradeWebSocket_open) (rule 2)
  from 2 3 show ?thesis by simp
qed

theorem read_drops_undecodable_witness:
  "read [Message True typoCall, Message True typoCall] roomHub = (Reading, roomHub)
   \<and> fst (upgradeWebSocket 3 ''c3'' [Message True typoCall] roomHub) = Reading
   \<and> invoked roomHub = []"
proof -
  have "read [Message True typoCall, Message True typoCall] roomHub
      = read [Message True typoCall] roomHub"
    using read_drops_undecodable [of typoCall "[Message True typoCall]" roomHub]
    by (simp del: read.simps)
  moreover have "read [Message True typoCall] roomHub = (Reading, roomHub)"
    using read_drops_undecodable [of typoCall "[]" roomHub] by blast
  moreover have "fst (upgradeWebSocket 3 ''c3'' [Message True typoCall] roomHub) = Reading"
    using read_drops_undecodable [of typoCall "[]" roomHub 3 "''c3''"]
    by (simp del: read.simps)
  moreover have "invoked roomHub = []"
    by (simp add: roomHub_eq chatHub_invoked)
  ultimately show ?thesis by simp
qed








subsection \<open>Calls to clients\<close>





























lemma bogusHub_eq:
  "bogusHub = roomHub
     \<lparr>groups := [''Global'' \<mapsto>
         [Some \<lparr>ClientConnectionID = ''c1'', transport = Some WebSocketTransport\<rparr>,
          Some \<lparr>ClientConnectionID = ''c2'', transport = Some WebSocketTransport\<rparr>,
          Some \<lparr>ClientConnectionID = ''c3'', transport = None\<rparr>,
          Some \<lparr>ClientConnectionID = ''c4'', transport = Some WebSocketTransport\<rparr>]]\<rparr>"
  by (simp add: bogusHub_def addClient_def transportNamed_def roomHub_members groupMembers_def)
    (simp add: roomHub_eq)

text \<open>
  The theorem needs its hypothesis on the transports. A client that has negotiated a
  transport that the Exchange does not have is in "Global" with the nil transport;
  the loop panics when it comes to that client, and the members after it are not
  called.
\<close>

lemma broadcast_stops_at_nil_transport:
  "fst (callClientMethod (chatHandle []) ''hello'' None bogusHub) = Some NilDereference
   \<and> map callRelay (calls (snd (callClientMethod (chatHandle []) ''hello'' None bogusHub)))
       = [Some (chatHandle ''c1''), Some (chatHandle ''c2'')]"
proof -
  have t: "connections bogusHub = [''c1'' \<mapsto> 1, ''c2'' \<mapsto> 2]
      \<and> conns bogusHub 1 = \<lparr>connID = ''c1'', out = [], outClosed = False\<rparr>
      \<and> conns bogusHub 2 = \<lparr>connID = ''c2'', out = [], outClosed = False\<rparr>
      \<and> calls bogusHub = []"
    by (simp add: bogusHub_eq roomHub_eq chatHub_def RegisterRelay_def NewExchange_def)
  have g: "groups bogusHub ''Global'' =
      Some [Some \<lparr>ClientConnectionID = ''c1'', transport = Some WebSocketTransport\<rparr>,
            Some \<lparr>ClientConnectionID = ''c2'', transport = Some WebSocketTransport\<rparr>,
            Some \<lparr>ClientConnectionID = ''c3'', transport = None\<rparr>,
            Some \<lparr>ClientConnectionID = ''c4'', transport = Some WebSocketTransport\<rparr>]"
    by (simp add: bogusHub_eq)
  have b: "getRelayByName ''Chat'' cid bogusHub = Some (chatHandle cid)" for cid
    using getRelayByName_found [OF roomHub_find]
    by (simp add: getRelayByName_def bogusHub_eq chatHandle_def)
  have h: "getRelayByName n cid (e\<lparr>conns := x\<rparr>) = getRelayByName n cid e"
      "getRelayByName n cid (e\<lparr>calls := y\<rparr>) = getRelayByName n cid e" for n cid e x y
    by (simp_all add: getRelayByName_def)
  have n: "Name (chatHandle cid) = ''Chat'' \<and> RelayConnectionID (chatHandle cid) = cid" for cid
    by (simp add: chatHandle_def)
  show ?thesis
    using t
    by (simp add: g callClientMethod_def callGroupMethod_def callTransport_def
        CallClientFunction_def sendOut_def b h n)
qed

subsection \<open>Nil entries in groups\<close>

lemma callEach_skips_nil:
  "callEach r fn args (xs @ None # ys) e = callEach r fn args (xs @ ys) e"
proof (induction xs arbitrary: e)
  case Nil
  then show ?case by simp
next
  case (Cons x xs)
  then show ?case by (cases x) (auto split: prod.splits option.splits)
qed

text \<open>
  C9. The specification says that \<^verbatim>\<open>addToGroup\<close> for an id that no client of "Global" has
  appends a nil entry and does not fail, and that broadcasts skip nil entries. What
  the code does, for an id that the group does not have either: the nil entry is
  appended, and with \<^verbatim>\<open>verbosity > 0\<close> the logging loop that follows reads
  \<^verbatim>\<open>c.ConnectionID\<close> of that entry and panics; the loop of \<^verbatim>\<open>callGroupMethod\<close> skips a
  nil entry wherever it stands; the loop of \<^verbatim>\<open>callGroupMethodExcept\<close> panics on one.
\<close>

theorem addToGroup_unknown_client:
  assumes "cid \<notin> set (memberIDs (groupMembers grp e))"
    and "getClientByConnectionID cid e = Inr None"
  shows "addToGroup grp cid e =
           (if verbosity e > 0 then Some NilDereference else None,
            e\<lparr>groups := (groups e)(grp \<mapsto> groupMembers grp e @ [None])\<rparr>)
       \<and> callEach r fn args (xs @ None # ys) e' = callEach r fn args (xs @ ys) e'
       \<and> callEachExcept r fn args (None # ys) e' = (Some NilDereference, e')"
  using assms
  by (simp add: addToGroup_def getClientIndexInGroup_absent Let_def groupMembers_update
      logMembers_def callEach_skips_nil)

lemma loudHub_members:
  "groupMembers g loudHub =
     (if g = ''Global''
      then [Some \<lparr>ClientConnectionID = ''c1'', transport = Some WebSocketTransport\<rparr>]
      else [])"
  by (simp add: loudHub_def addClient_def groupMembers_def RegisterRelay_def NewExchange_def
      transportNamed_def)

lemma loudHub_verbosity: "verbosity loudHub = 1"
  by (simp add: loudHub_def addClient_def RegisterRelay_def NewExchange_def)

theorem addToGroup_unknown_client_witness:
  "addToGroup ''room'' ''ghost'' loudHub =
     (Some NilDereference, loudHub\<lparr>groups := (groups loudHub)(''room'' \<mapsto> [None])\<rparr>)
   \<and> callGroupMethodExcept (chatHandle ''c1'') ''room'' ''hello'' None
        (snd (addToGroup ''room'' ''ghost'' loudHub))
       = (Some NilDereference, snd (addToGroup ''room'' ''ghost'' loudHub))"
proof -
  have 1: "''ghost'' \<notin> set (memberIDs (groupMembers ''room'' loudHub))"
    by (simp add: loudHub_members)
  have 2: "getClientByConnectionID ''ghost'' loudHub = Inr None"
    by (simp add: getClientByConnectionID_def loudHub_members)
  note t = addToGroup_unknown_client [OF 1 2]
  have a: "addToGroup ''room'' ''ghost'' loudHub =
     (Some NilDereference, loudHub\<lparr>groups := (groups loudHub)(''room'' \<mapsto> [None])\<rparr>)"
    using t [THEN conjunct1] by (simp add: loudHub_verbosity loudHub_members)
  have b: "callEachExcept (chatHandle ''c1'') ''hello'' None (None # []) e'
      = (Some NilDereference, e')" for e'
    using t [THEN conjunct2, THEN conjunct2] by blast
  show ?thesis
    unfolding a using b by (simp add: callGroupMethodExcept_def groupMembers_def)
qed

end
